theory Spec2Isabelle
  imports Complex_Main
begin

section \<open>Strings\<close>

text \<open>
  A JavaScript string is modelled as \<^typ>\<open>string\<close>, read as the UTF-8 bytes of the
  text: an ASCII character is one \<^typ>\<open>char\<close>, any other character is a run of bytes
  from \<open>0x80\<close> upwards.
\<close>

definition code :: "char \<Rightarrow> nat" where
  "code c = of_char c"

definition between :: "char \<Rightarrow> char \<Rightarrow> char \<Rightarrow> bool" where
  "between lo hi c = (code lo \<le> code c \<and> code c \<le> code hi)"

definition lower_char :: "char \<Rightarrow> char" where
  "lower_char c = (if between CHR ''A'' CHR ''Z'' c then char_of (code c + 32) else c)"

text \<open>
  \<open>String.prototype.toLowerCase\<close>. ASCII capitals go to their small letters. Two
  characters outside ASCII have a lower-case form that contains an ASCII letter: the
  Kelvin sign U+212A (bytes \<open>E2 84 AA\<close>) becomes \<open>k\<close>, and U+0130 (bytes \<open>C4 B0\<close>)
  becomes \<open>i\<close> followed by U+0307 (bytes \<open>CC 87\<close>). Every other character outside
  ASCII has a lower-case form outside ASCII and is left as it is here; \<open>generateId\<close>
  deletes all of them in its next step, whatever their case.
\<close>

fun toLowerCase :: "string \<Rightarrow> string" where
  "toLowerCase [] = []"
| "toLowerCase [a] = [lower_char a]"
| "toLowerCase [a, b] =
     (if a = CHR 0xC4 \<and> b = CHR 0xB0 then [CHR ''i'', CHR 0xCC, CHR 0x87]
      else lower_char a # toLowerCase [b])"
| "toLowerCase (a # b # c # cs) =
     (if a = CHR 0xE2 \<and> b = CHR 0x84 \<and> c = CHR 0xAA then CHR ''k'' # toLowerCase cs
      else if a = CHR 0xC4 \<and> b = CHR 0xB0
        then CHR ''i'' # CHR 0xCC # CHR 0x87 # toLowerCase (c # cs)
      else lower_char a # toLowerCase (b # c # cs))"

text \<open>The characters the class \<open>[^a-z0-9 -]\<close> does not match, so that they stay.\<close>

definition kept :: "char \<Rightarrow> bool" where
  "kept c = (between CHR ''a'' CHR ''z'' c \<or> between CHR ''0'' CHR ''9'' c
             \<or> c = CHR '' '' \<or> c = CHR ''-'')"

text \<open>
  The class \<open>\s\<close> on ASCII: tab, line feed, vertical tab, form feed, carriage return
  and space. The other characters of \<open>\s\<close> lie outside ASCII.
\<close>

definition js_space :: "char \<Rightarrow> bool" where
  "js_space c = (code c \<in> {9, 10, 11, 12, 13, 32})"

definition is_hyphen :: "char \<Rightarrow> bool" where
  "is_hyphen c = (c = CHR ''-'')"

text \<open>
  \<open>s.replace(/X+/g, r)\<close> for a character class \<open>X\<close>: every maximal run of
  characters of the class is replaced by the one character \<open>r\<close>.
\<close>

function replace_runs :: "(char \<Rightarrow> bool) \<Rightarrow> char \<Rightarrow> string \<Rightarrow> string" where
  "replace_runs X r [] = []"
| "replace_runs X r (c # cs) =
     (if X c then r # replace_runs X r (dropWhile X cs) else c # replace_runs X r cs)"
  by pat_completeness auto
termination
  by (relation "measure (\<lambda>(X, r, s). length s)")
     (auto simp: length_dropWhile_le less_Suc_eq_le)

text \<open>\<open>String.prototype.trim\<close>: white space is removed at both ends.\<close>

definition trim :: "string \<Rightarrow> string" where
  "trim s = rev (dropWhile js_space (rev (dropWhile js_space s)))"

text \<open>
  \<open>TableOfContents.generateId\<close> (app.js, lines 394 to 400):
  \<^verbatim>\<open>text.toLowerCase().replace(/[^a-z0-9 -]/g, '').replace(/\s+/g, '-')
      .replace(/-+/g, '-').trim()\<close>
\<close>

definition generateId :: "string \<Rightarrow> string" where
  "generateId text =
     trim (replace_runs is_hyphen CHR ''-''
       (replace_runs js_space CHR ''-'' (filter kept (toLowerCase text))))"

section \<open>The document\<close>

text \<open>
  The DOM is a tree of text nodes and elements; an element has a tag name (written in
  small letters), its attributes in order, and its children. A node inside a tree is
  named by its path, the child indices from the top. Style sheets, inline styles other
  than the one the source makes conditional, and the hover listeners are left out: no
  function below reads them.
\<close>

type_synonym attrs = "(string \<times> string) list"

datatype node = Text string | Elem string attrs "node list"

type_synonym path = "nat list"

fun set_attr :: "string \<Rightarrow> string \<Rightarrow> attrs \<Rightarrow> attrs" where
  "set_attr k v [] = [(k, v)]"
| "set_attr k v ((k', v') # as) =
     (if k = k' then (k, v) # as else (k', v') # set_attr k v as)"

fun kids :: "node \<Rightarrow> node list" where
  "kids (Text s) = []"
| "kids (Elem t a ks) = ks"

fun has_tag :: "string list \<Rightarrow> node \<Rightarrow> bool" where
  "has_tag ts (Text s) = False"
| "has_tag ts (Elem t a ks) = (t \<in> set ts)"

text \<open>\<open>element.id\<close>: the value of the attribute, the empty string when there is none.\<close>

fun elem_id :: "node \<Rightarrow> string" where
  "elem_id (Text s) = []"
| "elem_id (Elem t a ks) = (case map_of a ''id'' of Some v \<Rightarrow> v | None \<Rightarrow> [])"

fun has_id :: "string \<Rightarrow> node \<Rightarrow> bool" where
  "has_id i (Text s) = False"
| "has_id i (Elem t a ks) = (map_of a ''id'' = Some i)"

text \<open>The class attribute is a list of names separated by HTML white space.\<close>

definition html_space :: "char \<Rightarrow> bool" where
  "html_space c = (code c \<in> {9, 10, 12, 13, 32})"

fun tokens :: "string \<Rightarrow> string \<Rightarrow> string list" where
  "tokens cur [] = (if cur = [] then [] else [cur])"
| "tokens cur (c # cs) =
     (if html_space c then (if cur = [] then tokens [] cs else cur # tokens [] cs)
      else tokens (cur @ [c]) cs)"

fun has_class :: "string \<Rightarrow> node \<Rightarrow> bool" where
  "has_class c (Text s) = False"
| "has_class c (Elem t a ks) =
     (case map_of a ''class'' of Some v \<Rightarrow> c \<in> set (tokens [] v) | None \<Rightarrow> False)"

fun set_node_attr :: "string \<Rightarrow> string \<Rightarrow> node \<Rightarrow> node" where
  "set_node_attr k v (Text s) = Text s"
| "set_node_attr k v (Elem t a ks) = Elem t (set_attr k v a) ks"

fun append_kid :: "node \<Rightarrow> node \<Rightarrow> node" where
  "append_kid new (Text s) = Text s"
| "append_kid new (Elem t a ks) = Elem t a (ks @ [new])"

text \<open>\<open>node.textContent\<close>, read and written.\<close>

fun textContent :: "node \<Rightarrow> string" where
  "textContent (Text s) = s"
| "textContent (Elem t a ks) = concat (map textContent ks)"

definition text_kids :: "string \<Rightarrow> node list" where
  "text_kids s = (if s = [] then [] else [Text s])"

fun set_textContent :: "string \<Rightarrow> node \<Rightarrow> node" where
  "set_textContent s (Text u) = Text s"
| "set_textContent s (Elem t a ks) = Elem t a (text_kids s)"

fun node_at :: "node \<Rightarrow> path \<Rightarrow> node option" where
  "node_at n [] = Some n"
| "node_at (Text s) (i # p) = None"
| "node_at (Elem t a ks) (i # p) = (if i < length ks then node_at (ks ! i) p else None)"

fun update_at :: "path \<Rightarrow> (node \<Rightarrow> node) \<Rightarrow> node \<Rightarrow> node" where
  "update_at [] f n = f n"
| "update_at (i # p) f (Text s) = Text s"
| "update_at (i # p) f (Elem t a ks) =
     (if i < length ks then Elem t a (ks[i := update_at p f (ks ! i)]) else Elem t a ks)"

text \<open>
  The elements among the nodes \<open>ns\<close> and below them that satisfy \<open>P\<close>, in document
  order, as paths; \<open>i\<close> is the index of the first node of \<open>ns\<close> under its parent.
\<close>

fun paths_in :: "(node \<Rightarrow> bool) \<Rightarrow> nat \<Rightarrow> node list \<Rightarrow> path list" where
  "paths_in P i [] = []"
| "paths_in P i (Text s # ns) = paths_in P (Suc i) ns"
| "paths_in P i (Elem t a ks # ns) =
     (if P (Elem t a ks) then [[i]] else []) @ map ((#) i) (paths_in P 0 ks)
       @ paths_in P (Suc i) ns"

text \<open>
  The same for a selector \<open>A P\<close> with the descendant combinator: the elements that
  satisfy \<open>P\<close> and lie below an element that satisfies \<open>A\<close>; \<open>inside\<close> says that such
  an ancestor has been passed.
\<close>

fun paths_under ::
  "(node \<Rightarrow> bool) \<Rightarrow> (node \<Rightarrow> bool) \<Rightarrow> bool \<Rightarrow> nat \<Rightarrow> node list \<Rightarrow> path list" where
  "paths_under A P inside i [] = []"
| "paths_under A P inside i (Text s # ns) = paths_under A P inside (Suc i) ns"
| "paths_under A P inside i (Elem t a ks # ns) =
     (if inside \<and> P (Elem t a ks) then [[i]] else [])
       @ map ((#) i) (paths_under A P (inside \<or> A (Elem t a ks)) 0 ks)
       @ paths_under A P inside (Suc i) ns"

text \<open>\<open>element.querySelectorAll\<close> and \<open>element.querySelector\<close>: the descendants only.\<close>

definition querySelectorAll :: "(node \<Rightarrow> bool) \<Rightarrow> node \<Rightarrow> path list" where
  "querySelectorAll P n = paths_in P 0 (kids n)"

definition querySelector :: "(node \<Rightarrow> bool) \<Rightarrow> node \<Rightarrow> path option" where
  "querySelector P n = (case querySelectorAll P n of [] \<Rightarrow> None | p # ps \<Rightarrow> Some p)"

text \<open>
  \<open>ref.nextSibling\<close> for the node at a path, and
  \<open>ref.parentNode.insertBefore(new, ref.nextSibling)\<close>.
\<close>

definition nextSibling :: "node \<Rightarrow> path \<Rightarrow> path option" where
  "nextSibling n p =
     (if p = [] then None
      else case node_at n (butlast p) of
        Some (Elem t a ks) \<Rightarrow>
          (if Suc (last p) < length ks then Some (butlast p @ [Suc (last p)]) else None)
      | _ \<Rightarrow> None)"

fun insert_kid :: "nat \<Rightarrow> node \<Rightarrow> node \<Rightarrow> node" where
  "insert_kid j new (Text s) = Text s"
| "insert_kid j new (Elem t a ks) = Elem t a (take j ks @ new # drop j ks)"

definition insertBefore :: "node \<Rightarrow> path \<Rightarrow> node \<Rightarrow> node" where
  "insertBefore new ref n = update_at (butlast ref) (insert_kid (last ref) new) n"

section \<open>The page\<close>

text \<open>
  What the script reads and writes: the \<open>html\<close> element (its attributes and its
  children), the entry \<open>blog-theme\<close> of \<open>localStorage\<close>, the field \<open>currentTheme\<close>
  of the \<open>ThemeManager\<close> object, and whether the timer that retries \<open>addToggle\<close>
  is set. \<open>localStorage\<close> may throw on reading and on writing; the source catches
  both, and the two flags say whether it does.
\<close>

record page =
  html_attrs :: attrs
  html_kids :: "node list"
  ls_readable :: bool
  ls_writable :: bool
  ls_item :: "string option"
  currentTheme :: string
  addToggle_pending :: bool

definition root :: "page \<Rightarrow> node" where
  "root p = Elem ''html'' (html_attrs p) (html_kids p)"

fun put_root :: "node \<Rightarrow> page \<Rightarrow> page" where
  "put_root (Text s) p = p"
| "put_root (Elem t a ks) p = p\<lparr>html_attrs := a, html_kids := ks\<rparr>"

definition doc_update :: "path \<Rightarrow> (node \<Rightarrow> node) \<Rightarrow> page \<Rightarrow> page" where
  "doc_update pt f p = put_root (update_at pt f (root p)) p"

text \<open>\<open>document.querySelector\<close>: the \<open>html\<close> element itself is a candidate.\<close>

definition doc_querySelectorAll :: "(node \<Rightarrow> bool) \<Rightarrow> page \<Rightarrow> path list" where
  "doc_querySelectorAll P p =
     (if P (root p) then [[]] else []) @ paths_in P 0 (html_kids p)"

definition doc_querySelector :: "(node \<Rightarrow> bool) \<Rightarrow> page \<Rightarrow> path option" where
  "doc_querySelector P p =
     (case doc_querySelectorAll P p of [] \<Rightarrow> None | x # xs \<Rightarrow> Some x)"

definition getElementById :: "string \<Rightarrow> page \<Rightarrow> path option" where
  "getElementById i p = doc_querySelector (has_id i) p"

text \<open>\<open>document.body\<close>: the first child of \<open>html\<close> that is a \<open>body\<close>.\<close>

fun first_index :: "('a \<Rightarrow> bool) \<Rightarrow> nat \<Rightarrow> 'a list \<Rightarrow> nat option" where
  "first_index P i [] = None"
| "first_index P i (x # xs) = (if P x then Some i else first_index P (Suc i) xs)"

definition body_path :: "page \<Rightarrow> path option" where
  "body_path p = map_option (\<lambda>i. [i]) (first_index (has_tag [''body'']) 0 (html_kids p))"

section \<open>ThemeManager\<close>

text \<open>
  The class \<open>ThemeManager\<close> (app.js, lines 7 to 118), method by method. Registering the
  listener in \<open>addSystemThemeListener\<close> changes nothing on the page: the listener is a
  function of its own below, and \<open>step\<close> calls it.
\<close>

text \<open>A string or \<open>null\<close> is truthy when it is a string that is not empty.\<close>

fun truthy :: "string option \<Rightarrow> bool" where
  "truthy None = False"
| "truthy (Some s) = (s \<noteq> [])"

text \<open>\<open>a || b\<close> for \<open>a\<close> a string or \<open>null\<close>.\<close>

fun js_or :: "string option \<Rightarrow> string \<Rightarrow> string" where
  "js_or None b = b"
| "js_or (Some s) b = (if s = [] then b else s)"

text \<open>\<open>getStoredTheme\<close> (lines 19 to 25): \<open>null\<close> when reading throws.\<close>

definition getStoredTheme :: "page \<Rightarrow> string option" where
  "getStoredTheme p = (if ls_readable p then ls_item p else None)"

text \<open>
  \<open>getSystemPreference\<close> (lines 27 to 29); \<open>matches\<close> is what the media query
  \<open>(prefers-color-scheme: dark)\<close> says.
\<close>

definition getSystemPreference :: "bool \<Rightarrow> string" where
  "getSystemPreference matches = (if matches then ''dark'' else ''light'')"

text \<open>The first line of the constructor (line 9): the theme the page starts with.\<close>

definition initialTheme :: "bool \<Rightarrow> page \<Rightarrow> string" where
  "initialTheme matches p = js_or (getStoredTheme p) (getSystemPreference matches)"

text \<open>\<open>storeTheme\<close> (lines 37 to 43) and \<open>applyTheme\<close> (lines 31 to 35).\<close>

definition storeTheme :: "string \<Rightarrow> page \<Rightarrow> page" where
  "storeTheme theme p = (if ls_writable p then p\<lparr>ls_item := Some theme\<rparr> else p)"

definition applyTheme :: "string \<Rightarrow> page \<Rightarrow> page" where
  "applyTheme theme p =
     storeTheme theme
       (p\<lparr>html_attrs := set_attr ''data-color-scheme'' theme (html_attrs p),
          currentTheme := theme\<rparr>)"

text \<open>The icons, as the UTF-8 bytes of the source file.\<close>

definition icon_sun :: string where
  "icon_sun = [CHR 0xE2, CHR 0x98, CHR 0x80, CHR 0xEF, CHR 0xB8, CHR 0x8F]"

definition icon_moon :: string where
  "icon_moon = [CHR 0xF0, CHR 0x9F, CHR 0x8C, CHR 0x99]"

definition icon_link :: string where
  "icon_link = [CHR 0xF0, CHR 0x9F, CHR 0x94, CHR 0x97]"

definition icon_check :: string where
  "icon_check = [CHR 0xE2, CHR 0x9C, CHR 0x85]"

text \<open>\<open>updateToggleButton\<close> (lines 99 to 107) and \<open>toggleTheme\<close> (lines 45 to 49).\<close>

definition updateToggleButton :: "page \<Rightarrow> page" where
  "updateToggleButton p =
     (case getElementById ''theme-toggle'' p of
        None \<Rightarrow> p
      | Some toggle \<Rightarrow>
          doc_update toggle
            (\<lambda>n. set_node_attr ''aria-label''
                   (if currentTheme p = ''dark'' then ''Switch to light theme''
                    else ''Switch to dark theme'')
                   (set_textContent
                     (if currentTheme p = ''dark'' then icon_sun else icon_moon) n))
            p)"

definition toggleTheme :: "page \<Rightarrow> page" where
  "toggleTheme p =
     updateToggleButton
       (applyTheme (if currentTheme p = ''dark'' then ''light'' else ''dark'') p)"

definition toggleButton :: node where
  "toggleButton = Elem ''button'' [(''id'', ''theme-toggle''), (''aria-label'', ''Toggle theme'')] []"

text \<open>
  \<open>addToggle\<close> inside \<open>createThemeToggle\<close> (lines 51 to 97). Without a navigation bar it sets a
  timer to be run again; \<open>addToggle_timer\<close> is that timer firing.
\<close>

definition addToggle :: "page \<Rightarrow> page" where
  "addToggle p =
     (case doc_querySelector (has_class ''app-nav'') p of
        None \<Rightarrow> p\<lparr>addToggle_pending := True\<rparr>
      | Some nav \<Rightarrow>
          (case getElementById ''theme-toggle'' p of
             Some t \<Rightarrow> p
           | None \<Rightarrow> updateToggleButton (doc_update nav (append_kid toggleButton) p)))"

definition createThemeToggle :: "page \<Rightarrow> page" where
  "createThemeToggle p = addToggle p"

definition addToggle_timer :: "page \<Rightarrow> page" where
  "addToggle_timer p =
     (if addToggle_pending p then addToggle (p\<lparr>addToggle_pending := False\<rparr>) else p)"

text \<open>
  The listener that \<open>addSystemThemeListener\<close> registers (lines 111 to 116);
  \<open>matches\<close> is \<open>e.matches\<close>.
\<close>

definition systemThemeListener :: "bool \<Rightarrow> page \<Rightarrow> page" where
  "systemThemeListener matches p =
     (if \<not> truthy (getStoredTheme p)
      then updateToggleButton (applyTheme (if matches then ''dark'' else ''light'') p)
      else p)"

text \<open>\<open>init\<close> (lines 13 to 17).\<close>

definition init :: "page \<Rightarrow> page" where
  "init p = createThemeToggle (applyTheme (currentTheme p) p)"

text \<open>
  \<open>new ThemeManager()\<close> on a page; \<open>matches\<close> is the state of the media query at
  that moment. The field \<open>currentTheme\<close> of the page given is not read.
\<close>

definition ThemeManager_new :: "bool \<Rightarrow> page \<Rightarrow> page" where
  "ThemeManager_new matches p = init (p\<lparr>currentTheme := initialTheme matches p\<rparr>)"

text \<open>
  What can happen after the constructor: a click on the toggle button (there is none to
  click before it is inserted), a change of the system colour scheme, and the retry
  timer.
\<close>

datatype event = ToggleClick | SystemThemeChange bool | AddToggleTimer

fun step :: "page \<Rightarrow> event \<Rightarrow> page" where
  "step p ToggleClick =
     (case getElementById ''theme-toggle'' p of None \<Rightarrow> p | Some t \<Rightarrow> toggleTheme p)"
| "step p (SystemThemeChange matches) = systemThemeListener matches p"
| "step p AddToggleTimer = addToggle_timer p"

definition run :: "page \<Rightarrow> event list \<Rightarrow> page" where
  "run p es = foldl step p es"

definition theme_attr :: "page \<Rightarrow> string option" where
  "theme_attr p = map_of (html_attrs p) ''data-color-scheme''"

text \<open>
  The contract of the specification for the initial theme, in its words: the stored value
  if present and valid (one of the two themes), else the system signal, else \<open>light\<close>.
\<close>

definition resolveInitial_spec :: "string option \<Rightarrow> bool option \<Rightarrow> string" where
  "resolveInitial_spec stored system =
     (case stored of
        Some s \<Rightarrow>
          (if s = ''light'' \<or> s = ''dark'' then s
           else case system of Some m \<Rightarrow> (if m then ''dark'' else ''light'') | None \<Rightarrow> ''light'')
      | None \<Rightarrow>
          (case system of Some m \<Rightarrow> (if m then ''dark'' else ''light'') | None \<Rightarrow> ''light''))"

section \<open>ReadingProgress\<close>

definition progressBar :: node where
  "progressBar = Elem ''div'' [(''id'', ''reading-progress'')] []"

text \<open>
  \<open>createProgressBar\<close> (lines 131 to 145). \<open>document.body.appendChild\<close> throws a \<open>TypeError\<close> when
  the document has no body: the result is \<open>None\<close> then.
\<close>

definition createProgressBar :: "page \<Rightarrow> page option" where
  "createProgressBar p =
     (case body_path p of
        None \<Rightarrow> None
      | Some b \<Rightarrow> Some (doc_update b (append_kid progressBar) p))"

text \<open>
  A JavaScript number is \<open>NaN\<close>, an infinity or a finite value. The finite values are
  taken as exact rationals: the rounding of doubles is not modelled, and a zero has
  no sign (the divisor below is a difference, which is never the negative zero).
\<close>

datatype jsnum = NaN | PosInf | NegInf | Fin rat

text \<open>\<open>a / b\<close> for finite \<open>a\<close> and \<open>b\<close>.\<close>

definition js_div :: "rat \<Rightarrow> rat \<Rightarrow> jsnum" where
  "js_div a b =
     (if b = 0 then (if a = 0 then NaN else if 0 < a then PosInf else NegInf)
      else Fin (a / b))"

text \<open>\<open>x * c\<close> for a finite \<open>c > 0\<close>.\<close>

fun js_times :: "jsnum \<Rightarrow> rat \<Rightarrow> jsnum" where
  "js_times (Fin a) c = Fin (a * c)"
| "js_times x c = x"

fun Math_min :: "jsnum \<Rightarrow> jsnum \<Rightarrow> jsnum" where
  "Math_min NaN y = NaN"
| "Math_min x NaN = NaN"
| "Math_min NegInf y = NegInf"
| "Math_min x NegInf = NegInf"
| "Math_min PosInf y = y"
| "Math_min x PosInf = x"
| "Math_min (Fin a) (Fin b) = Fin (min a b)"

text \<open>
  \<open>updateProgress\<close> (lines 150 to 160): the number whose decimal form, followed by \<open>%\<close>, becomes the
  width of the bar; \<open>None\<close> when there is no bar and the handler returns at once.
  The arguments are \<open>window.pageYOffset\<close>, \<open>document.documentElement.scrollHeight\<close>
  and \<open>window.innerHeight\<close>.
\<close>

definition scrollWidth :: "rat \<Rightarrow> rat \<Rightarrow> rat \<Rightarrow> jsnum" where
  "scrollWidth scrollTop scrollHeight innerHeight =
     (let docHeight = scrollHeight - innerHeight;
          scrollPercent = js_times (js_div scrollTop docHeight) 100
      in Math_min scrollPercent (Fin 100))"

definition updateProgress :: "rat \<Rightarrow> rat \<Rightarrow> rat \<Rightarrow> page \<Rightarrow> jsnum option" where
  "updateProgress scrollTop scrollHeight innerHeight p =
     (case getElementById ''reading-progress'' p of
        None \<Rightarrow> None
      | Some bar \<Rightarrow> Some (scrollWidth scrollTop scrollHeight innerHeight))"

fun in_percent_range :: "jsnum \<Rightarrow> bool" where
  "in_percent_range (Fin a) = (0 \<le> a \<and> a \<le> 100)"
| "in_percent_range x = False"

section \<open>LinkCopier\<close>

text \<open>\<open>addCopyLinks\<close> (lines 218 to 253): the button, and what is done to one heading.\<close>

definition copyLinkButton :: node where
  "copyLinkButton =
     Elem ''button''
       [(''class'', ''copy-link''), (''aria-label'', ''Copy link to this section'')]
       [Text icon_link]"

definition add_copy_link :: "node \<Rightarrow> node" where
  "add_copy_link heading =
     (if elem_id heading \<noteq> [] \<and> querySelector (has_class ''copy-link'') heading = None
      then append_kid copyLinkButton heading else heading)"

text \<open>
  The headings are those of \<open>.markdown-section h2, .markdown-section h3\<close> in the whole
  document; the search starts at the \<open>html\<close> element, whose index 0 is taken off the
  paths again.
\<close>

definition addCopyLinks :: "page \<Rightarrow> page" where
  "addCopyLinks p =
     foldl (\<lambda>q heading. doc_update heading add_copy_link q) p
       (map tl
          (paths_under (has_class ''markdown-section'') (has_tag [''h2'', ''h3'']) False 0
             [root p]))"

text \<open>
  The copy button as \<open>copyLink\<close> sees it, and what the environment does:
  \<open>navigator.clipboard.writeText\<close> fulfils, rejects, or \<open>navigator.clipboard\<close> is
  undefined (a \<open>TypeError\<close> inside the \<open>try\<close>); \<open>document.execCommand('copy')\<close>
  returns true, returns false, or throws.
\<close>

record button =
  innerHTML :: string
  color :: string

datatype write_outcome = Fulfilled | Rejected | NoClipboard

datatype exec_outcome = ExecTrue | ExecFalse | ExecThrows

text \<open>
  \<open>showCopyFeedback\<close> (lines 281 to 290): the button at once, and the button after the timer of 2000 ms
  has put the former content back.
\<close>

definition showCopyFeedback :: "button \<Rightarrow> string \<Rightarrow> button \<times> button" where
  "showCopyFeedback b icon =
     (let originalIcon = innerHTML b
      in (b\<lparr>innerHTML := icon, color := ''var(--color-success)''\<rparr>,
          b\<lparr>innerHTML := originalIcon, color := ''var(--color-text-secondary)''\<rparr>))"

text \<open>
  \<open>fallbackCopy\<close> (lines 268 to 279): \<open>None\<close> when \<open>execCommand\<close> throws, else the text that reached the
  clipboard, if any. The value \<open>execCommand\<close> returns is not read by the source. The
  text area that the function adds to the body, and removes again, is left out.
\<close>

definition fallbackCopy :: "exec_outcome \<Rightarrow> string \<Rightarrow> string option option" where
  "fallbackCopy e text =
     (case e of ExecThrows \<Rightarrow> None | ExecTrue \<Rightarrow> Some (Some text) | ExecFalse \<Rightarrow> Some None)"

text \<open>
  \<open>copyLink\<close> (lines 255 to 266), with what it leaves behind: the text on the
  clipboard, whether the fallback ran, the icon given to \<open>showCopyFeedback\<close> if it
  was called, the button now and after the timer, and whether the promise of the
  \<open>async\<close> function is rejected.
\<close>

record copy_result =
  copied :: "string option"
  fallback_called :: bool
  feedback :: "string option"
  button_now :: button
  button_later :: button
  rejected :: bool

definition copyLink ::
  "write_outcome \<Rightarrow> exec_outcome \<Rightarrow> string \<Rightarrow> string \<Rightarrow> string \<Rightarrow> button \<Rightarrow> copy_result" where
  "copyLink w e origin pathname headingId b =
     (let url = origin @ pathname @ ''#'' @ headingId;
          shown = showCopyFeedback b icon_check
      in case w of
           Fulfilled \<Rightarrow>
             \<lparr>copied = Some url, fallback_called = False, feedback = Some icon_check,
              button_now = fst shown, button_later = snd shown, rejected = False\<rparr>
         | _ \<Rightarrow>
             (case fallbackCopy e url of
                None \<Rightarrow>
                  \<lparr>copied = None, fallback_called = True, feedback = None,
                   button_now = b, button_later = b, rejected = True\<rparr>
              | Some c \<Rightarrow>
                  \<lparr>copied = c, fallback_called = True, feedback = Some icon_check,
                   button_now = fst shown, button_later = snd shown, rejected = False\<rparr>))"

section \<open>TableOfContents\<close>

text \<open>\<open>createTOCElement\<close> (lines 327 to 348) and \<open>createTOCList\<close> (lines 350 to 392).\<close>

definition createTOCElement :: node where
  "createTOCElement =
     Elem ''nav'' [(''class'', ''table-of-contents'')]
       [Elem ''h4'' [] [Text ''Table of Contents'']]"

definition ensure_id :: "node \<Rightarrow> node" where
  "ensure_id heading =
     (if elem_id heading = [] then set_node_attr ''id'' (generateId (textContent heading)) heading
      else heading)"

definition toc_item :: "node \<Rightarrow> node" where
  "toc_item heading =
     Elem ''li'' []
       [Elem ''a''
          [(''href'', ''#'' @ elem_id heading),
           (''style'', if has_tag [''h3''] heading then ''padding-left: var(--space-16);'' else [])]
          (text_kids (textContent heading))]"

text \<open>
  One round of the \<open>forEach\<close> in \<open>createTOCList\<close>: the heading gets an identifier if
  it has none, and its entry is appended to the list.
\<close>

definition toc_step :: "node \<times> node list \<Rightarrow> path \<Rightarrow> node \<times> node list" where
  "toc_step st heading =
     (let content = update_at heading ensure_id (fst st)
      in (content,
          snd st @ (case node_at content heading of Some h \<Rightarrow> [toc_item h] | None \<Rightarrow> [])))"

definition createTOCList :: "path list \<Rightarrow> node \<Rightarrow> node \<times> node" where
  "createTOCList headings content =
     (let r = foldl toc_step (content, []) headings in (fst r, Elem ''ul'' [] (snd r)))"

text \<open>
  \<open>generateTOC\<close> (lines 305 to 325) from the line that collects the headings, on the
  content element; then the whole of it on the page.
\<close>

definition generateTOC_content :: "node \<Rightarrow> node" where
  "generateTOC_content content =
     (let headings = querySelectorAll (has_tag [''h2'', ''h3'']) content
      in if length headings < 3 then content
         else
           let r = createTOCList headings content;
               content1 = fst r;
               toc = append_kid (snd r) createTOCElement;
               firstP = querySelector (has_tag [''p'']) content1;
               firstH = querySelector (has_tag [''h1'', ''h2'']) content1;
               insertAfter = (case firstP of Some x \<Rightarrow> Some x | None \<Rightarrow> firstH)
           in case insertAfter of
                None \<Rightarrow> content1
              | Some x \<Rightarrow>
                  (case nextSibling content1 x of
                     None \<Rightarrow> content1
                   | Some ref \<Rightarrow> insertBefore toc ref content1))"

definition generateTOC :: "page \<Rightarrow> page" where
  "generateTOC p =
     (case doc_querySelector (has_class ''markdown-section'') p of
        None \<Rightarrow> p
      | Some content \<Rightarrow> doc_update content generateTOC_content p)"

section \<open>SmoothScroll\<close>

text \<open>The click listener of \<open>SmoothScroll.init\<close> (app.js, lines 410 to 428).\<close>

text \<open>
  \<open>e.target.closest('a[href^="#"]')\<close>: the click target and its ancestors, from the
  target upwards, each with its tag and attributes; the result is the \<open>href\<close> of the
  first \<open>a\<close> among them whose \<open>href\<close> begins with \<open>#\<close>.
\<close>

fun closest_anchor :: "(string \<times> attrs) list \<Rightarrow> string option" where
  "closest_anchor [] = None"
| "closest_anchor ((t, a) # up) =
     (case map_of a ''href'' of
        Some h \<Rightarrow> (if t = ''a'' \<and> take 1 h = ''#'' then Some h else closest_anchor up)
      | None \<Rightarrow> closest_anchor up)"

text \<open>
  The chain for a click on the node at a path of the document: that node and its
  ancestors up to \<open>html\<close>, the node first.
\<close>

fun tag_attrs :: "node option \<Rightarrow> (string \<times> attrs) list" where
  "tag_attrs (Some (Elem t a ks)) = [(t, a)]"
| "tag_attrs other = []"

definition chain_at :: "page \<Rightarrow> path \<Rightarrow> (string \<times> attrs) list" where
  "chain_at p target =
     concat (map (\<lambda>k. tag_attrs (node_at (root p) (take k target)))
       (rev [0..<Suc (length target)]))"

text \<open>
  \<open>document.querySelector(href)\<close> for an \<open>href\<close> that begins with \<open>#\<close>. The
  characters of a CSS name are the letters, the digits, the hyphen, the underscore and
  everything outside ASCII; a name is an identifier when it begins with a letter, an
  underscore or a character outside ASCII, or with a hyphen followed by one of these or
  by another hyphen. Then:
  \<^item> \<open>#\<close> followed by an identifier and nothing else is the ID selector of that
    identifier;
  \<^item> \<open>#\<close> followed by a name that is no identifier (one that begins with a digit,
    say), or by a character that is neither of a name nor the backslash, or by nothing,
    is no selector, and \<open>querySelector\<close> throws a \<open>SyntaxError\<close>;
  \<^item> anything else (a longer selector, an escape) is not parsed here.
\<close>

definition css_name_start :: "char \<Rightarrow> bool" where
  "css_name_start c =
     (between CHR ''a'' CHR ''z'' c \<or> between CHR ''A'' CHR ''Z'' c \<or> c = CHR ''_''
      \<or> 128 \<le> code c)"

definition css_name_char :: "char \<Rightarrow> bool" where
  "css_name_char c = (css_name_start c \<or> between CHR ''0'' CHR ''9'' c \<or> c = CHR ''-'')"

fun starts_identifier :: "string \<Rightarrow> bool" where
  "starts_identifier [] = False"
| "starts_identifier [c] = css_name_start c"
| "starts_identifier (c # d # cs) =
     (css_name_start c \<or> (c = CHR ''-'' \<and> (css_name_start d \<or> d = CHR ''-'')))"

datatype selector = IdSelector string | NotSelector | OtherSelector

definition parse_hash :: "string \<Rightarrow> selector" where
  "parse_hash href =
     (let name = tl href
      in if name = [] then NotSelector
         else if list_all css_name_char name
           then (if starts_identifier name then IdSelector name else NotSelector)
         else if \<not> css_name_char (hd name) \<and> hd name \<noteq> CHR 0x5C then NotSelector
         else OtherSelector)"

text \<open>
  The result of \<open>querySelector\<close>: it throws, returns \<open>null\<close>, or returns the element at
  a path. An ID selector gives the first element of the document with that identifier;
  for a selector that is not parsed here the answer is the argument \<open>other\<close>.
\<close>

datatype query_result = SyntaxError | Null | Found path

definition document_querySelector ::
  "page \<Rightarrow> (string \<Rightarrow> query_result) \<Rightarrow> string \<Rightarrow> query_result" where
  "document_querySelector p other href =
     (case parse_hash href of
        IdSelector i \<Rightarrow> (case getElementById i p of None \<Rightarrow> Null | Some x \<Rightarrow> Found x)
      | NotSelector \<Rightarrow> SyntaxError
      | OtherSelector \<Rightarrow> other href)"

record click_effect =
  defaultPrevented :: bool
  scrolledTo :: "rat option"
  thrown :: bool

text \<open>
  The listener, for a click on the node at the path \<open>target\<close>. \<open>rect_top\<close> is the
  layout: \<open>getBoundingClientRect().top\<close> of the element at a path. The effect says
  whether \<open>preventDefault\<close> was called, where \<open>window.scrollTo\<close> was asked to go, and
  whether the listener ended by an exception.
\<close>

definition clickHandler ::
  "page \<Rightarrow> (path \<Rightarrow> rat) \<Rightarrow> (string \<Rightarrow> query_result) \<Rightarrow> path \<Rightarrow> rat \<Rightarrow> click_effect" where
  "clickHandler p rect_top other target pageYOffset =
     (case closest_anchor (chain_at p target) of
        None \<Rightarrow> \<lparr>defaultPrevented = False, scrolledTo = None, thrown = False\<rparr>
      | Some href \<Rightarrow>
          (if href = ''#'' then \<lparr>defaultPrevented = False, scrolledTo = None, thrown = False\<rparr>
           else case document_querySelector p other href of
                  SyntaxError \<Rightarrow> \<lparr>defaultPrevented = True, scrolledTo = None, thrown = True\<rparr>
                | Null \<Rightarrow> \<lparr>defaultPrevented = True, scrolledTo = None, thrown = False\<rparr>
                | Found x \<Rightarrow>
                    \<lparr>defaultPrevented = True,
                     scrolledTo = Some (rect_top x + pageYOffset - 80), thrown = False\<rparr>))"

section \<open>Concrete pages\<close>

text \<open>Inputs at which the definitions are evaluated further down.\<close>

definition blank_page :: page where
  "blank_page =
     \<lparr>html_attrs = [], html_kids = [Elem ''head'' [] [], Elem ''body'' [] []],
      ls_readable = True, ls_writable = True, ls_item = None, currentTheme = [],
      addToggle_pending = False\<rparr>"

text \<open>The same page when \<open>localStorage\<close> holds \<open>blue\<close> under \<open>blog-theme\<close>.\<close>

definition blue_page :: page where
  "blue_page = blank_page\<lparr>ls_item := Some ''blue''\<rparr>"

text \<open>An article: a title, a paragraph, and three headings of level 2 and 3.\<close>

definition demo_article :: node where
  "demo_article =
     Elem ''article'' [(''class'', ''markdown-section''), (''id'', ''main'')]
       [Elem ''h1'' [(''id'', ''title'')] [Text ''Title''],
        Elem ''p'' [] [Text ''Some text.''],
        Elem ''h2'' [(''id'', ''first'')] [Text ''First''],
        Elem ''h3'' [(''id'', ''inner'')] [Text ''Inner''],
        Elem ''h2'' [] [Text ''Second part'']]"

text \<open>An article whose first paragraph is the last child of its parent.\<close>

definition short_article :: node where
  "short_article =
     Elem ''article'' [(''class'', ''markdown-section'')]
       [Elem ''h2'' [(''id'', ''a'')] [Text ''A''],
        Elem ''h2'' [(''id'', ''b'')] [Text ''B''],
        Elem ''h3'' [(''id'', ''c'')] [Text ''C''],
        Elem ''p'' [] [Text ''Some text.'']]"

definition demo_page :: page where
  "demo_page =
     blank_page\<lparr>html_kids :=
       [Elem ''head'' [] [],
        Elem ''body'' [] [Elem ''nav'' [(''class'', ''app-nav no-badge'')] [], demo_article]]\<rparr>"

text \<open>
  A page whose article has three numbered headings without identifiers, as in the post
  on classes of the repository, a link to \<open>#missing\<close>, which no element has as its
  identifier, and a link to the title; the same page once \<open>generateTOC\<close> has run on
  it.
\<close>

definition classes_page :: page where
  "classes_page =
     blank_page\<lparr>html_kids :=
       [Elem ''head'' [] [],
        Elem ''body'' []
          [Elem ''article'' [(''class'', ''markdown-section'')]
             [Elem ''h1'' [(''id'', ''top'')] [Text ''Classes''],
              Elem ''p'' []
                [Text ''See '', Elem ''a'' [(''href'', ''#missing'')] [Elem ''em'' [] [Text ''here'']],
                 Text '' or go '', Elem ''a'' [(''href'', ''#top'')] [Text ''up'']],
              Elem ''h3'' [] [Text ''1. Classes and Objects''],
              Elem ''h3'' [] [Text ''2. Encapsulation''],
              Elem ''h3'' [] [Text ''3. Inheritance'']]]]\<rparr>"

definition outlined_page :: page where
  "outlined_page = generateTOC classes_page"

text \<open>A layout that puts the element at the path \<open>[1, 0, 0]\<close> 500 below the top of the viewport.\<close>

definition sample_layout :: "path \<Rightarrow> rat" where
  "sample_layout x = (if x = [1, 0, 0] then 500 else 0)"

definition no_other :: "string \<Rightarrow> query_result" where
  "no_other href = Null"

definition link_button :: button where
  "link_button = \<lparr>innerHTML = icon_link, color = ''var(--color-text-secondary)''\<rparr>"

text \<open>The text of a heading that ends with a space and the rocket emoji U+1F680.\<close>

definition rocket_heading :: string where
  "rocket_heading = ''Quick start '' @ [CHR 0xF0, CHR 0x9F, CHR 0x9A, CHR 0x80]"


text \<open>An article of headings only, and one with neither a paragraph nor a heading above level 3.\<close>

definition headings_article :: node where
  "headings_article =
     Elem ''article'' [(''class'', ''markdown-section'')]
       [Elem ''h2'' [] [Text ''One''], Elem ''h3'' [] [Text ''Two''],
        Elem ''h3'' [] [Text ''Three'']]"

definition deep_article :: node where
  "deep_article =
     Elem ''article'' [(''class'', ''markdown-section'')]
       [Elem ''h3'' [] [Text ''One''], Elem ''h3'' [] [Text ''Two''],
        Elem ''h3'' [] [Text ''Three'']]"

text \<open>An article whose first paragraph is the only child of a block quote.\<close>

definition quote_article :: node where
  "quote_article =
     Elem ''article'' [(''class'', ''markdown-section'')]
       [Elem ''h2'' [] [Text ''One''], Elem ''h3'' [] [Text ''Two''],
        Elem ''h3'' [] [Text ''Three''],
        Elem ''blockquote'' [] [Elem ''p'' [] [Text ''Quoted.'']],
        Elem ''p'' [] [Text ''Some text.'']]"

section \<open>Notions used in the statements\<close>

text \<open>The number of elements of the document that a selector matches.\<close>

definition count_matches :: "(node \<Rightarrow> bool) \<Rightarrow> page \<Rightarrow> nat" where
  "count_matches P p = length (doc_querySelectorAll P p)"

text \<open>A function on nodes that keeps the tag of an element and its attribute \<open>k\<close>.\<close>

definition keeps_attr :: "string \<Rightarrow> (node \<Rightarrow> node) \<Rightarrow> bool" where
  "keeps_attr k f =
     (\<forall>t a ks. \<exists>a' ks'. f (Elem t a ks) = Elem t a' ks' \<and> map_of a' k = map_of a k)"


text \<open>Storage works, and the stored theme and the attribute are the theme in memory.\<close>

definition persisted :: "page \<Rightarrow> bool" where
  "persisted p =
     (ls_readable p \<and> ls_writable p \<and> ls_item p = Some (currentTheme p)
      \<and> theme_attr p = Some (currentTheme p) \<and> currentTheme p \<noteq> [])"

text \<open>A tree without its attributes: what selectors by tag and \<open>nextSibling\<close> see.\<close>

fun skeleton :: "node \<Rightarrow> node" where
  "skeleton (Text s) = Text s"
| "skeleton (Elem t a ks) = Elem t [] (map skeleton ks)"

text \<open>\<open>parent.removeChild\<close> of the node at a path, to say what an insertion added.\<close>

fun remove_kid :: "nat \<Rightarrow> node \<Rightarrow> node" where
  "remove_kid j (Text s) = Text s"
| "remove_kid j (Elem t a ks) = Elem t a (take j ks @ drop (Suc j) ks)"

definition removeChild :: "path \<Rightarrow> node \<Rightarrow> node" where
  "removeChild pt n = update_at (butlast pt) (remove_kid (last pt)) n"

text \<open>
  The parts of \<open>generateTOC\<close>: the content once \<open>createTOCList\<close> has given every
  heading an identifier, the outline block, and the node after which the block goes:
  the first paragraph, and the first heading of level 1 or 2 when there is no paragraph.
\<close>

definition with_ids :: "node \<Rightarrow> node" where
  "with_ids content =
     fst (createTOCList (querySelectorAll (has_tag [''h2'', ''h3'']) content) content)"

definition toc_block :: "node \<Rightarrow> node" where
  "toc_block content =
     append_kid (snd (createTOCList (querySelectorAll (has_tag [''h2'', ''h3'']) content) content))
       createTOCElement"

definition insertion_target :: "node \<Rightarrow> path option" where
  "insertion_target content =
     (case querySelector (has_tag [''p'']) content of
        Some x \<Rightarrow> Some x
      | None \<Rightarrow> querySelector (has_tag [''h1'', ''h2'']) content)"

text \<open>
  The collapsing steps of the slug in one pass: a character that is white space or a
  hyphen gives one hyphen, unless the character before it was one of these as well;
  \<open>after\<close> says that it was.
\<close>

definition separator :: "char \<Rightarrow> bool" where
  "separator c = (js_space c \<or> is_hyphen c)"

fun collapse :: "bool \<Rightarrow> string \<Rightarrow> string" where
  "collapse after [] = []"
| "collapse after (c # cs) =
     (if separator c then (if after then collapse True cs else CHR ''-'' # collapse True cs)
      else c # collapse False cs)"

text \<open>
  The slug in the words of the specification: lower case, the characters other than
  letters, digits, spaces and hyphens taken out, white space and repeated hyphens
  collapsed to single hyphens, and the edges trimmed, so that the slug neither begins
  nor ends with a hyphen.
\<close>

definition trim_edges :: "string \<Rightarrow> string" where
  "trim_edges s = rev (dropWhile separator (rev (dropWhile separator s)))"

definition generateId_spec :: "string \<Rightarrow> string" where
  "generateId_spec text = trim_edges (collapse False (filter kept (toLowerCase text)))"


text \<open>The characters a slug is made of: small letters, digits and the hyphen.\<close>

definition slug_char :: "char \<Rightarrow> bool" where
  "slug_char c = (between CHR ''a'' CHR ''z'' c \<or> between CHR ''0'' CHR ''9'' c \<or> c = CHR ''-'')"

fun no_double_hyphen :: "string \<Rightarrow> bool" where
  "no_double_hyphen (a # b # cs) = ((\<not> (is_hyphen a \<and> is_hyphen b)) \<and> no_double_hyphen (b # cs))"
| "no_double_hyphen _ = True"

section \<open>Properties of the slug\<close>

lemma slug_char_kept: "slug_char c \<Longrightarrow> kept c"
  by (auto simp: slug_char_def kept_def)

lemma slug_char_not_space: "slug_char c \<Longrightarrow> \<not> js_space c"
  by (auto simp: slug_char_def js_space_def between_def code_def)

lemma kept_not_space_slug: "kept c \<Longrightarrow> \<not> js_space c \<Longrightarrow> slug_char c"
  by (auto simp: slug_char_def kept_def js_space_def code_def)

lemma slug_char_lower: "slug_char c \<Longrightarrow> lower_char c = c"
  by (auto simp: slug_char_def lower_char_def between_def code_def)

lemma slug_char_ascii: "slug_char c \<Longrightarrow> c \<noteq> CHR 0xE2 \<and> c \<noteq> CHR 0xC4"
  by (auto simp: slug_char_def between_def code_def)

lemma toLowerCase_slug: "list_all slug_char s \<Longrightarrow> toLowerCase s = s"
  by (induction s rule: toLowerCase.induct) (auto simp: slug_char_lower slug_char_ascii)

lemma filter_kept_slug: "list_all slug_char s \<Longrightarrow> filter kept s = s"
  by (induction s) (auto simp: slug_char_kept)

lemma replace_runs_none: "list_all (\<lambda>c. \<not> X c) s \<Longrightarrow> replace_runs X r s = s"
  by (induction s) auto

lemma replace_space_slug: "list_all slug_char s \<Longrightarrow> replace_runs js_space r s = s"
  by (rule replace_runs_none) (auto simp: list_all_iff slug_char_not_space)

lemma replace_hyphen_fixed:
  "no_double_hyphen s \<Longrightarrow> replace_runs is_hyphen CHR ''-'' s = s"
  by (induction s rule: no_double_hyphen.induct) (auto simp: is_hyphen_def)

lemma trim_slug: "list_all slug_char s \<Longrightarrow> trim s = s"
proof -
  assume a: "list_all slug_char s"
  have d: "dropWhile js_space t = t" if "list_all slug_char t" for t
    using that by (cases t) (auto simp: slug_char_not_space)
  from a have "list_all slug_char (rev s)" by (simp add: list_all_iff)
  with a d show ?thesis by (simp add: trim_def)
qed

lemma slug_fixed:
  assumes "list_all slug_char s" and "no_double_hyphen s"
  shows "generateId s = s"
  using assms
  by (simp add: generateId_def toLowerCase_slug filter_kept_slug replace_space_slug
      replace_hyphen_fixed trim_slug)

lemma replace_space_chars:
  "list_all kept s \<Longrightarrow> list_all slug_char (replace_runs js_space CHR ''-'' s)"
proof (induction "js_space" "CHR ''-''" s rule: replace_runs.induct)
  case 1
  then show ?case by simp
next
  case (2 c cs)
  have h: "slug_char CHR ''-''" by (simp add: slug_char_def)
  from 2 have "list_all kept (dropWhile js_space cs)"
    by (auto simp: list_all_iff dest: set_dropWhileD)
  with 2 h show ?case by (auto simp: kept_not_space_slug)
qed

lemma replace_hyphen_chars:
  "list_all slug_char s \<Longrightarrow> list_all slug_char (replace_runs is_hyphen CHR ''-'' s)"
proof (induction "is_hyphen" "CHR ''-''" s rule: replace_runs.induct)
  case 1
  then show ?case by simp
next
  case (2 c cs)
  have h: "slug_char CHR ''-''" by (simp add: slug_char_def)
  from 2 have "list_all slug_char (dropWhile is_hyphen cs)"
    by (auto simp: list_all_iff dest: set_dropWhileD)
  with 2 h show ?case by auto
qed

lemma replace_hyphen_no_double:
  "no_double_hyphen (replace_runs is_hyphen CHR ''-'' s)"
proof (induction "is_hyphen" "CHR ''-''" s rule: replace_runs.induct)
  case 1
  then show ?case by simp
next
  case (2 c cs)
  show ?case
  proof (cases "is_hyphen c")
    case True
    let ?d = "dropWhile is_hyphen cs"
    have nh: "?d = [] \<or> \<not> is_hyphen (hd ?d)"
      by (metis hd_dropWhile)
    have ih: "no_double_hyphen (replace_runs is_hyphen CHR ''-'' ?d)"
      using 2 True by simp
    show ?thesis
    proof (cases ?d)
      case Nil
      with True have "replace_runs is_hyphen CHR ''-'' (c # cs) = [CHR ''-'']"
        by (simp del: dropWhile_eq_Nil_conv)
      then show ?thesis by simp
    next
      case (Cons x xs)
      with nh have "\<not> is_hyphen x" by simp
      with ih Cons True show ?thesis by (simp del: dropWhile_eq_Nil_conv)
    qed
  next
    case False
    have ih: "no_double_hyphen (replace_runs is_hyphen CHR ''-'' cs)"
      using 2 False by simp
    from False ih show ?thesis
      by (cases "replace_runs is_hyphen CHR ''-'' cs") auto
  qed
qed

lemma generateId_shape:
  "list_all slug_char (generateId t) \<and> no_double_hyphen (generateId t)"
proof -
  let ?f = "filter kept (toLowerCase t)"
  let ?w = "replace_runs js_space CHR ''-'' ?f"
  let ?h = "replace_runs is_hyphen CHR ''-'' ?w"
  have "list_all kept ?f" by (simp add: list_all_iff)
  then have "list_all slug_char ?w" by (rule replace_space_chars)
  then have hs: "list_all slug_char ?h" by (rule replace_hyphen_chars)
  then have "trim ?h = ?h" by (rule trim_slug)
  then have "generateId t = ?h" by (simp add: generateId_def)
  with hs replace_hyphen_no_double [of ?w] show ?thesis by simp
qed

text \<open>The two replacements of the source, one after the other, are the one pass.\<close>

lemma collapse_skip:
  "\<forall>c. X c \<longrightarrow> separator c \<Longrightarrow> collapse True (dropWhile X cs) = collapse True cs"
  by (induction cs) auto

lemma collapse_replace:
  "replace_runs is_hyphen CHR ''-'' (replace_runs js_space CHR ''-'' s) = collapse False s
   \<and> replace_runs is_hyphen CHR ''-'' (dropWhile is_hyphen (replace_runs js_space CHR ''-'' s))
       = collapse True s"
proof (induction s rule: length_induct)
  case (1 s)
  show ?case
  proof (cases s)
    case Nil
    then show ?thesis by simp
  next
    case (Cons c cs)
    have h: "is_hyphen CHR ''-''" by (simp add: is_hyphen_def)
    show ?thesis
    proof (cases "js_space c")
      case True
      let ?d = "dropWhile js_space cs"
      have "length ?d < length s" using Cons by (simp add: length_dropWhile_le less_Suc_eq_le)
      with 1 have ih: "replace_runs is_hyphen CHR ''-''
          (dropWhile is_hyphen (replace_runs js_space CHR ''-'' ?d)) = collapse True ?d" by blast
      have sk: "collapse True ?d = collapse True cs"
        by (rule collapse_skip) (simp add: separator_def)
      from True Cons h ih sk show ?thesis by (simp add: separator_def)
    next
      case False
      have "length cs < length s" using Cons by simp
      with 1 have ih: "replace_runs is_hyphen CHR ''-'' (replace_runs js_space CHR ''-'' cs)
            = collapse False cs"
        "replace_runs is_hyphen CHR ''-'' (dropWhile is_hyphen (replace_runs js_space CHR ''-'' cs))
            = collapse True cs" by blast+
      show ?thesis
      proof (cases "is_hyphen c")
        case True
        then have "c = CHR ''-''" by (simp add: is_hyphen_def)
        with False Cons h ih show ?thesis by (simp add: separator_def)
      next
        case nh: False
        with False Cons ih show ?thesis by (simp add: separator_def)
      qed
    qed
  qed
qed

lemma generateId_collapse: "generateId t = collapse False (filter kept (toLowerCase t))"
proof -
  let ?f = "filter kept (toLowerCase t)"
  let ?h = "replace_runs is_hyphen CHR ''-'' (replace_runs js_space CHR ''-'' ?f)"
  have "list_all kept ?f" by (simp add: list_all_iff)
  then have "list_all slug_char (replace_runs js_space CHR ''-'' ?f)" by (rule replace_space_chars)
  then have "list_all slug_char ?h" by (rule replace_hyphen_chars)
  then have "trim ?h = ?h" by (rule trim_slug)
  then show ?thesis using collapse_replace [of ?f] by (simp add: generateId_def)
qed

text \<open>
  What holds of the slug for every text: applying the function twice gives what applying
  it once gives; the slug is the text in lower case, without the characters other than
  small letters, digits, spaces and hyphens (on ASCII, exactly these stay), with every
  run of white space and hyphens collapsed to a single hyphen; it consists of small
  letters, digits and single hyphens. The text \<open>Hello, World!! 2024\<close> has the slug
  \<open>hello-world-2024\<close>.
\<close>

theorem generateId_idempotent:
  "generateId (generateId t) = generateId t
   \<and> generateId ''Hello, World!! 2024'' = ''hello-world-2024''
   \<and> generateId t = collapse False (filter kept (toLowerCase t))
   \<and> filter kept (toLowerCase (map char_of [0..<128::nat]))
       = '' -0123456789abcdefghijklmnopqrstuvwxyzabcdefghijklmnopqrstuvwxyz''
   \<and> list_all slug_char (generateId t) \<and> no_double_hyphen (generateId t)"
proof -
  have "generateId (generateId t) = generateId t"
    using generateId_shape [of t] by (simp add: slug_fixed)
  moreover have "generateId ''Hello, World!! 2024'' = ''hello-world-2024''"
    by code_simp
  moreover have "filter kept (toLowerCase (map char_of [0..<128::nat]))
       = '' -0123456789abcdefghijklmnopqrstuvwxyzabcdefghijklmnopqrstuvwxyz''"
    by code_simp
  ultimately show ?thesis
    using generateId_shape [of t] generateId_collapse [of t] by simp
qed

text \<open>
  C7. The claim: the slug function is idempotent, gives \<open>hello-world-2024\<close> for
  \<open>Hello, World!! 2024\<close>, and follows the steps lower case, strip, white space to
  single hyphens, repeated hyphens to one, trim edges. The source calls \<open>trim\<close> as its
  last step, when the white space at the edges has become hyphens already, so that
  nothing is trimmed: a heading that ends with a space and an emoji, and a text with a
  space at each end, get slugs with a hyphen at the edge, where the slug with trimmed
  edges has none.
\<close>

theorem generateId_edges:
  "generateId rocket_heading = ''quick-start-''
   \<and> generateId_spec rocket_heading = ''quick-start''
   \<and> generateId '' Getting started '' = ''-getting-started-''
   \<and> generateId_spec '' Getting started '' = ''getting-started''
   \<and> trim '' Getting started '' = ''Getting started''"
  by code_simp

section \<open>The scroll progress\<close>

lemma scrollWidth_in_range:
  assumes "0 \<le> y" and "ih < sh"
  shows "in_percent_range (scrollWidth y sh ih)"
proof -
  from assms have d: "0 < sh - ih" by simp
  with assms have "0 \<le> y / (sh - ih) * 100" by simp
  with d show ?thesis
    by (simp add: scrollWidth_def js_div_def Let_def min_def)
qed

text \<open>
  C1. The claim: for every scroll position, viewport height and document height the
  progress value lies between 0 and 100, and it is 0, not \<open>NaN\<close>, when the document is
  as high as the viewport. The source divides without looking at the divisor: on a page
  with the bar, at scroll position 0 with both heights 600, the value is \<open>NaN\<close>, which
  is not in the range.
\<close>

theorem updateProgress_degenerate:
  "map_option (updateProgress 0 600 600) (createProgressBar blank_page) = Some (Some NaN)
   \<and> scrollWidth 0 600 600 = NaN
   \<and> \<not> in_percent_range (scrollWidth 0 600 600)"
  by (simp add: createProgressBar_def body_path_def blank_page_def updateProgress_def
      getElementById_def doc_querySelector_def doc_querySelectorAll_def root_def doc_update_def
      progressBar_def scrollWidth_def js_div_def)

section \<open>Clicks on anchor links\<close>



lemma closest_anchor_hash: "closest_anchor chain = Some h \<Longrightarrow> take 1 h = ''#''"
  by (induction chain rule: closest_anchor.induct) (auto split: option.splits if_splits)

text \<open>
  What the listener does on a link whose \<open>href\<close> begins with \<open>#\<close> and is not the bare
  \<open>#\<close>: the default is prevented in every case; for an ID selector the window scrolls
  when the document has an element with that identifier, and not otherwise; for a string
  that is no selector the listener ends by the exception of \<open>querySelector\<close>.
\<close>

lemma clickHandler_prevents:
  "closest_anchor (chain_at p t) = Some href \<Longrightarrow> href \<noteq> ''#'' \<Longrightarrow>
   defaultPrevented (clickHandler p l other t y)"
  by (simp add: clickHandler_def split: query_result.splits)

lemma clickHandler_id_selector:
  assumes "closest_anchor (chain_at p t) = Some href" and "parse_hash href = IdSelector i"
  shows "clickHandler p l other t y =
     (case getElementById i p of
        None \<Rightarrow> \<lparr>defaultPrevented = True, scrolledTo = None, thrown = False\<rparr>
      | Some x \<Rightarrow> \<lparr>defaultPrevented = True, scrolledTo = Some (l x + y - 80), thrown = False\<rparr>)"
proof -
  from assms(2) have "href \<noteq> ''#''" by (auto simp: parse_hash_def)
  with assms show ?thesis
    by (simp add: clickHandler_def document_querySelector_def split: option.splits)
qed

lemma clickHandler_no_selector:
  assumes "closest_anchor (chain_at p t) = Some href" and "href \<noteq> ''#''"
    and "parse_hash href = NotSelector"
  shows "clickHandler p l other t y = \<lparr>defaultPrevented = True, scrolledTo = None, thrown = True\<rparr>"
  using assms by (simp add: clickHandler_def document_querySelector_def)

text \<open>
  C2. The claim: on a click on a link whose \<open>href\<close> begins with \<open>#\<close> and is not the
  bare \<open>#\<close>, if the target exists the handler prevents the default and scrolls to the
  top of the target plus the scroll position minus 80, and if it does not exist the
  default goes on. The source calls \<open>preventDefault\<close> before it looks for the target,
  with the \<open>href\<close> as a selector. On the page below \<open>generateTOC\<close> has given the
  heading \<open>1. Classes and Objects\<close> the identifier \<open>1-classes-and-objects\<close> and a
  link to it: the element exists, the click on the link prevents the default, scrolls
  nowhere and ends by the \<open>SyntaxError\<close> of \<open>querySelector\<close>. The click on the link
  to \<open>#missing\<close>, which no element has, prevents the default as well. The click on the
  link to \<open>#top\<close> does what the claim says.
\<close>

theorem clickHandler_outline_link:
  "generateId ''1. Classes and Objects'' = ''1-classes-and-objects''
   \<and> closest_anchor (chain_at outlined_page [1, 0, 2, 1, 0, 0]) = Some ''#1-classes-and-objects''
   \<and> getElementById ''1-classes-and-objects'' outlined_page = Some [1, 0, 3]
   \<and> clickHandler outlined_page sample_layout no_other [1, 0, 2, 1, 0, 0] 100
       = \<lparr>defaultPrevented = True, scrolledTo = None, thrown = True\<rparr>
   \<and> closest_anchor (chain_at outlined_page [1, 0, 1, 1, 0]) = Some ''#missing''
   \<and> getElementById ''missing'' outlined_page = None
   \<and> clickHandler outlined_page sample_layout no_other [1, 0, 1, 1, 0] 100
       = \<lparr>defaultPrevented = True, scrolledTo = None, thrown = False\<rparr>
   \<and> closest_anchor (chain_at outlined_page [1, 0, 1, 3]) = Some ''#top''
   \<and> getElementById ''top'' outlined_page = Some [1, 0, 0]
   \<and> clickHandler outlined_page sample_layout no_other [1, 0, 1, 3] 100
       = \<lparr>defaultPrevented = True, scrolledTo = Some 520, thrown = False\<rparr>"
  by code_simp

section \<open>Copying a section link\<close>

text \<open>
  C4, as amended. When the clipboard write fails, the fallback copy is attempted, and the
  success icon is shown whenever the fallback returns, whether or not it copied anything;
  no icon is shown only when the fallback throws.
\<close>

theorem copyLink_fallback:
  assumes "w \<noteq> Fulfilled"
  shows "fallback_called (copyLink w e orig pth hid b)
    \<and> feedback (copyLink w e orig pth hid b) = (if e = ExecThrows then None else Some icon_check)
    \<and> copied (copyLink w e orig pth hid b)
        = (if e = ExecTrue then Some (orig @ pth @ ''#'' @ hid) else None)
    \<and> innerHTML (button_now (copyLink w e orig pth hid b))
        = (if e = ExecThrows then innerHTML b else icon_check)"
  using assms
  by (cases w; cases e) (simp_all add: copyLink_def fallbackCopy_def Let_def showCopyFeedback_def)

theorem copyLink_fallback_witness:
  "NoClipboard \<noteq> Fulfilled
   \<and> fallback_called (copyLink NoClipboard ExecTrue ''https://example.org'' ''/blog/post'' ''intro'' link_button)
   \<and> feedback (copyLink NoClipboard ExecTrue ''https://example.org'' ''/blog/post'' ''intro'' link_button)
       = Some icon_check
   \<and> copied (copyLink NoClipboard ExecTrue ''https://example.org'' ''/blog/post'' ''intro'' link_button)
       = Some ''https://example.org/blog/post#intro''
   \<and> innerHTML (button_now
        (copyLink NoClipboard ExecTrue ''https://example.org'' ''/blog/post'' ''intro'' link_button))
       = icon_check"
proof -
  have h: "NoClipboard \<noteq> Fulfilled" by simp
  show ?thesis
    using copyLink_fallback [OF h, of ExecTrue "''https://example.org''" "''/blog/post''" "''intro''" link_button]
    by simp
qed

text \<open>
  The claim as it stands fails when the write is rejected and \<open>execCommand\<close> returns
  false: nothing is copied, and the success icon is on the button.
\<close>

theorem copyLink_both_fail:
  "copied (copyLink Rejected ExecFalse ''https://example.org'' ''/blog/post'' ''intro'' link_button) = None
   \<and> feedback (copyLink Rejected ExecFalse ''https://example.org'' ''/blog/post'' ''intro'' link_button)
       = Some icon_check
   \<and> innerHTML (button_now
        (copyLink Rejected ExecFalse ''https://example.org'' ''/blog/post'' ''intro'' link_button))
       = icon_check
   \<and> innerHTML link_button \<noteq> icon_check"
  by (simp add: copyLink_def fallbackCopy_def Let_def showCopyFeedback_def link_button_def
      icon_link_def icon_check_def)

section \<open>The theme\<close>


lemma map_of_set_attr:
  "map_of (set_attr k v as) k' = (if k' = k then Some v else map_of as k')"
  by (induction as) auto

lemma update_at_Elem:
  "pt \<noteq> [] \<Longrightarrow> \<exists>ks'. update_at pt f (Elem t a ks) = Elem t a ks'"
  by (cases pt) auto

lemma doc_update_fields:
  assumes "keeps_attr k f"
  shows "ls_readable (doc_update pt f p) = ls_readable p"
    and "ls_writable (doc_update pt f p) = ls_writable p"
    and "ls_item (doc_update pt f p) = ls_item p"
    and "currentTheme (doc_update pt f p) = currentTheme p"
    and "addToggle_pending (doc_update pt f p) = addToggle_pending p"
    and "map_of (html_attrs (doc_update pt f p)) k = map_of (html_attrs p) k"
proof -
  have "\<exists>a' ks'. update_at pt f (root p) = Elem ''html'' a' ks' \<and> map_of a' k = map_of (html_attrs p) k"
  proof (cases pt)
    case Nil
    with assms show ?thesis by (simp add: root_def keeps_attr_def)
  next
    case (Cons i q)
    then show ?thesis using update_at_Elem [of pt f "''html''" "html_attrs p" "html_kids p"]
      by (auto simp: root_def)
  qed
  then obtain a' ks' where u: "update_at pt f (root p) = Elem ''html'' a' ks'"
    and m: "map_of a' k = map_of (html_attrs p) k" by blast
  from u m show "ls_readable (doc_update pt f p) = ls_readable p"
    and "ls_writable (doc_update pt f p) = ls_writable p"
    and "ls_item (doc_update pt f p) = ls_item p"
    and "currentTheme (doc_update pt f p) = currentTheme p"
    and "addToggle_pending (doc_update pt f p) = addToggle_pending p"
    and "map_of (html_attrs (doc_update pt f p)) k = map_of (html_attrs p) k"
    by (simp_all add: doc_update_def)
qed

lemma keeps_append_kid: "keeps_attr k (append_kid n)"
  by (simp add: keeps_attr_def)

lemma keeps_button_update:
  "k \<noteq> ''aria-label'' \<Longrightarrow> keeps_attr k (\<lambda>n. set_node_attr ''aria-label'' v (set_textContent s n))"
  by (simp add: keeps_attr_def map_of_set_attr)

lemma scheme_not_label: "''data-color-scheme'' \<noteq> ''aria-label''"
  by simp

lemmas keeps_button = keeps_button_update [OF scheme_not_label]

lemma updateToggleButton_fields:
  "ls_readable (updateToggleButton p) = ls_readable p"
  "ls_writable (updateToggleButton p) = ls_writable p"
  "ls_item (updateToggleButton p) = ls_item p"
  "currentTheme (updateToggleButton p) = currentTheme p"
  "addToggle_pending (updateToggleButton p) = addToggle_pending p"
  "theme_attr (updateToggleButton p) = theme_attr p"
  by (simp_all add: updateToggleButton_def theme_attr_def doc_update_fields [OF keeps_button]
      split: option.splits)

lemma addToggle_fields:
  "ls_readable (addToggle p) = ls_readable p"
  "ls_writable (addToggle p) = ls_writable p"
  "ls_item (addToggle p) = ls_item p"
  "currentTheme (addToggle p) = currentTheme p"
  "theme_attr (addToggle p) = theme_attr p"
  by (simp_all add: addToggle_def theme_attr_def updateToggleButton_fields [unfolded theme_attr_def]
      doc_update_fields [OF keeps_append_kid] split: option.splits)

lemma applyTheme_fields:
  "ls_readable (applyTheme t p) = ls_readable p"
  "ls_writable (applyTheme t p) = ls_writable p"
  "ls_item (applyTheme t p) = (if ls_writable p then Some t else ls_item p)"
  "currentTheme (applyTheme t p) = t"
  "theme_attr (applyTheme t p) = Some t"
  by (simp_all add: applyTheme_def storeTheme_def theme_attr_def map_of_set_attr)

lemma toggleTheme_fields:
  "ls_readable (toggleTheme p) = ls_readable p"
  "ls_writable (toggleTheme p) = ls_writable p"
  "ls_item (toggleTheme p) = (if ls_writable p then Some (if currentTheme p = ''dark'' then ''light'' else ''dark'') else ls_item p)"
  "currentTheme (toggleTheme p) = (if currentTheme p = ''dark'' then ''light'' else ''dark'')"
  "theme_attr (toggleTheme p) = Some (if currentTheme p = ''dark'' then ''light'' else ''dark'')"
  by (simp_all add: toggleTheme_def updateToggleButton_fields applyTheme_fields)

lemma ThemeManager_new_fields:
  "ls_readable (ThemeManager_new m p) = ls_readable p"
  "ls_writable (ThemeManager_new m p) = ls_writable p"
  "ls_item (ThemeManager_new m p) = (if ls_writable p then Some (initialTheme m p) else ls_item p)"
  "currentTheme (ThemeManager_new m p) = initialTheme m p"
  "theme_attr (ThemeManager_new m p) = Some (initialTheme m p)"
  by (simp_all add: ThemeManager_new_def init_def createThemeToggle_def addToggle_fields applyTheme_fields)

lemma initialTheme_nonempty: "initialTheme m p \<noteq> []"
  by (cases "getStoredTheme p") (auto simp: initialTheme_def getSystemPreference_def)

lemma theme_attr_pending: "theme_attr (p\<lparr>addToggle_pending := b\<rparr>) = theme_attr p"
  by (simp add: theme_attr_def)

text \<open>
  C5, as amended. The initial theme is a function of the stored value and the system
  signal: the stored value when there is one and it is not the empty string, whatever
  it is (it is not compared with \<open>light\<close> and \<open>dark\<close>), and otherwise \<open>dark\<close> or
  \<open>light\<close> as the system signal says. The constructor makes it the theme in memory
  and the attribute of the document.
\<close>

theorem initialTheme_precedence:
  "initialTheme m p =
     (case getStoredTheme p of
        Some s \<Rightarrow> if s \<noteq> [] then s else if m then ''dark'' else ''light''
      | None \<Rightarrow> if m then ''dark'' else ''light'')
   \<and> getStoredTheme p = (if ls_readable p then ls_item p else None)
   \<and> currentTheme (ThemeManager_new m p) = initialTheme m p
   \<and> theme_attr (ThemeManager_new m p) = Some (initialTheme m p)"
  by (simp add: ThemeManager_new_fields initialTheme_def getStoredTheme_def
      getSystemPreference_def split: option.splits)

text \<open>
  The claim as it stands fails when the stored value is \<open>blue\<close>: it is present and not
  valid, the system signal says \<open>light\<close>, and the initial theme is \<open>blue\<close>.
\<close>

theorem initialTheme_invalid_stored:
  "getStoredTheme blue_page = Some ''blue''
   \<and> initialTheme False blue_page = ''blue''
   \<and> resolveInitial_spec (getStoredTheme blue_page) (Some False) = ''light''
   \<and> initialTheme False blue_page \<noteq> resolveInitial_spec (getStoredTheme blue_page) (Some False)"
  by (simp add: initialTheme_def getStoredTheme_def blue_page_def blank_page_def
      resolveInitial_spec_def)

text \<open>
  In every state that the constructor and later events reach, the theme attribute of the
  document is the theme in memory.
\<close>

lemma attr_follows_step:
  "theme_attr p = Some (currentTheme p) \<Longrightarrow> theme_attr (step p e) = Some (currentTheme (step p e))"
  by (cases e)
    (auto simp: toggleTheme_fields systemThemeListener_def updateToggleButton_fields
      applyTheme_fields addToggle_timer_def addToggle_fields theme_attr_pending
      split: option.splits)

lemma attr_follows_run:
  "theme_attr p = Some (currentTheme p) \<Longrightarrow> theme_attr (run p es) = Some (currentTheme (run p es))"
  unfolding run_def by (induction es arbitrary: p) (simp_all add: attr_follows_step)

lemma attr_follows_theme:
  "theme_attr (run (ThemeManager_new m p) es) = Some (currentTheme (run (ThemeManager_new m p) es))"
  by (rule attr_follows_run) (simp add: ThemeManager_new_fields)

text \<open>
  C8, as amended. In every state where the theme in memory is \<open>light\<close> or \<open>dark\<close>
  and is the theme attribute of the document, two calls of \<open>toggleTheme\<close> bring the
  attribute, and the theme in memory, back to what they were.
\<close>

theorem toggle_twice:
  assumes "currentTheme p = ''light'' \<or> currentTheme p = ''dark''"
    and "theme_attr p = Some (currentTheme p)"
  shows "theme_attr (toggleTheme (toggleTheme p)) = theme_attr p
    \<and> currentTheme (toggleTheme (toggleTheme p)) = currentTheme p"
  using assms by (auto simp: toggleTheme_fields)

theorem toggle_twice_witness:
  "(currentTheme (ThemeManager_new True demo_page) = ''light''
      \<or> currentTheme (ThemeManager_new True demo_page) = ''dark'')
   \<and> theme_attr (ThemeManager_new True demo_page) = Some (currentTheme (ThemeManager_new True demo_page))
   \<and> theme_attr (toggleTheme (toggleTheme (ThemeManager_new True demo_page)))
       = theme_attr (ThemeManager_new True demo_page)
   \<and> currentTheme (toggleTheme (toggleTheme (ThemeManager_new True demo_page)))
       = currentTheme (ThemeManager_new True demo_page)"
proof -
  have c: "currentTheme (ThemeManager_new True demo_page) = ''dark''"
    by (simp add: ThemeManager_new_fields initialTheme_def getStoredTheme_def
        getSystemPreference_def demo_page_def blank_page_def)
  then have h1: "currentTheme (ThemeManager_new True demo_page) = ''light''
      \<or> currentTheme (ThemeManager_new True demo_page) = ''dark''" by simp
  have h2: "theme_attr (ThemeManager_new True demo_page)
      = Some (currentTheme (ThemeManager_new True demo_page))"
    by (simp add: ThemeManager_new_fields)
  from h1 h2 toggle_twice [OF h1 h2] show ?thesis by simp
qed

text \<open>
  The claim as it stands fails in the state the constructor reaches when the stored
  value is \<open>blue\<close>: the attribute is \<open>blue\<close>, and after two toggles it is \<open>light\<close>.
\<close>

theorem toggle_twice_blue:
  "theme_attr (ThemeManager_new False blue_page) = Some ''blue''
   \<and> theme_attr (toggleTheme (toggleTheme (ThemeManager_new False blue_page))) = Some ''light''
   \<and> theme_attr (toggleTheme (toggleTheme (ThemeManager_new False blue_page)))
       \<noteq> theme_attr (ThemeManager_new False blue_page)"
  by (simp add: toggleTheme_fields ThemeManager_new_fields initialTheme_def getStoredTheme_def
      blue_page_def blank_page_def)









lemma persisted_new: "ls_readable p \<Longrightarrow> ls_writable p \<Longrightarrow> persisted (ThemeManager_new m p)"
  by (simp add: persisted_def ThemeManager_new_fields initialTheme_nonempty)

lemma persisted_step: "persisted p \<Longrightarrow> persisted (step p e)"
proof (cases e)
  case ToggleClick
  assume "persisted p"
  then show ?thesis using ToggleClick
    by (auto simp: persisted_def toggleTheme_fields split: option.splits)
next
  case (SystemThemeChange m)
  assume "persisted p"
  then show ?thesis using SystemThemeChange
    by (simp add: persisted_def systemThemeListener_def getStoredTheme_def)
next
  case AddToggleTimer
  assume "persisted p"
  then show ?thesis using AddToggleTimer
    by (simp add: persisted_def addToggle_timer_def addToggle_fields theme_attr_pending)
qed

lemma persisted_run: "persisted p \<Longrightarrow> persisted (run p es)"
  unfolding run_def by (induction es arbitrary: p) (simp_all add: persisted_step)

text \<open>
  C10. With working storage every call of \<open>applyTheme\<close> stores the theme it applies, the
  first one in the constructor included; so after the constructor, and after anything
  that happens later, the stored preference exists and is the theme in memory, which is
  also the attribute of the document; this is so when nothing was stored before and the
  theme came from the system signal.
\<close>

theorem stored_after_init:
  assumes "ls_readable p" and "ls_writable p"
  shows "ls_item (applyTheme t p) = Some t
    \<and> getStoredTheme (ThemeManager_new m p) = Some (currentTheme (ThemeManager_new m p))
    \<and> getStoredTheme (run (ThemeManager_new m p) es)
        = Some (currentTheme (run (ThemeManager_new m p) es))
    \<and> theme_attr (run (ThemeManager_new m p) es)
        = Some (currentTheme (run (ThemeManager_new m p) es))
    \<and> (ls_item p = None \<longrightarrow> getStoredTheme (ThemeManager_new m p) = Some (getSystemPreference m))"
proof -
  have "persisted (run (ThemeManager_new m p) es)"
    using assms by (simp add: persisted_run persisted_new)
  moreover have "persisted (ThemeManager_new m p)"
    using assms by (rule persisted_new)
  ultimately show ?thesis using assms
    by (simp add: persisted_def getStoredTheme_def applyTheme_fields ThemeManager_new_fields
        initialTheme_def)
qed

theorem stored_after_init_witness:
  "ls_readable blank_page \<and> ls_writable blank_page \<and> ls_item blank_page = None
   \<and> ls_item (applyTheme ''dark'' blank_page) = Some ''dark''
   \<and> getStoredTheme (ThemeManager_new True blank_page) = Some ''dark''
   \<and> currentTheme (ThemeManager_new True blank_page) = ''dark''
   \<and> getStoredTheme (run (ThemeManager_new True blank_page) [SystemThemeChange False])
        = Some (currentTheme (run (ThemeManager_new True blank_page) [SystemThemeChange False]))"
proof -
  have r: "ls_readable blank_page" and w: "ls_writable blank_page"
    and n: "ls_item blank_page = None"
    by (simp_all add: blank_page_def)
  from r w n stored_after_init [OF r w, of "''dark''" True "[SystemThemeChange False]"]
  show ?thesis by (auto simp: getSystemPreference_def)
qed

section \<open>The outline\<close>


lemma skeleton_update_at:
  "\<forall>m. skeleton (f m) = skeleton m \<Longrightarrow> skeleton (update_at pt f n) = skeleton n"
proof (induction pt f n rule: update_at.induct)
  case (1 f n)
  then show ?case by simp
next
  case (2 i p f s)
  then show ?case by simp
next
  case (3 i p f t a ks)
  show ?case
  proof (cases "i < length ks")
    case True
    with 3 have "skeleton (update_at p f (ks ! i)) = skeleton (ks ! i)" by simp
    with True show ?thesis by (simp add: map_update list_update_same_conv)
  next
    case False
    then show ?thesis by simp
  qed
qed

lemma skeleton_ensure_id: "skeleton (ensure_id h) = skeleton h"
  by (cases h) (simp_all add: ensure_id_def)

lemma skeleton_toc_step: "skeleton (fst (toc_step st h)) = skeleton (fst st)"
  by (simp add: toc_step_def Let_def skeleton_update_at skeleton_ensure_id)

lemma skeleton_foldl_toc_step: "skeleton (fst (foldl toc_step st hs)) = skeleton (fst st)"
  by (induction hs arbitrary: st) (simp_all add: skeleton_toc_step)

lemma skeleton_createTOCList: "skeleton (fst (createTOCList hs c)) = skeleton c"
  by (simp add: createTOCList_def Let_def skeleton_foldl_toc_step)

lemma has_tag_skeleton: "has_tag ts (skeleton n) = has_tag ts n"
  by (cases n) simp_all

lemma paths_in_skeleton:
  "paths_in (has_tag ts) i (map skeleton ns) = paths_in (has_tag ts) i ns"
  by (induction "has_tag ts" i ns rule: paths_in.induct) simp_all

lemma kids_skeleton: "kids (skeleton n) = map skeleton (kids n)"
  by (cases n) simp_all

lemma querySelectorAll_skeleton:
  "querySelectorAll (has_tag ts) (skeleton n) = querySelectorAll (has_tag ts) n"
  by (simp add: querySelectorAll_def kids_skeleton paths_in_skeleton)

lemma querySelector_same_skeleton:
  assumes "skeleton a = skeleton b"
  shows "querySelector (has_tag ts) a = querySelector (has_tag ts) b"
proof -
  have "querySelectorAll (has_tag ts) a = querySelectorAll (has_tag ts) b"
    using assms querySelectorAll_skeleton [of ts a] querySelectorAll_skeleton [of ts b] by simp
  then show ?thesis by (simp add: querySelector_def)
qed

lemma node_at_skeleton: "node_at (skeleton n) pt = map_option skeleton (node_at n pt)"
  by (induction n pt rule: node_at.induct) simp_all

lemma nextSibling_skeleton: "nextSibling (skeleton n) pt = nextSibling n pt"
proof (cases "node_at n (butlast pt)")
  case None
  then show ?thesis by (simp add: nextSibling_def node_at_skeleton)
next
  case (Some m)
  then show ?thesis by (cases m) (simp_all add: nextSibling_def node_at_skeleton)
qed

lemma nextSibling_same_skeleton:
  "skeleton a = skeleton b \<Longrightarrow> nextSibling a pt = nextSibling b pt"
  by (metis nextSibling_skeleton)

lemma nextSibling_Some:
  assumes "nextSibling n x = Some nx"
  shows "nx = butlast x @ [Suc (last x)]
    \<and> (\<exists>t a ks. node_at n (butlast x) = Some (Elem t a ks) \<and> Suc (last x) < length ks)"
  using assms by (auto simp: nextSibling_def split: if_splits option.splits node.splits)

lemma node_at_inserted:
  "node_at n ps = Some (Elem t a ks) \<Longrightarrow> j \<le> length ks \<Longrightarrow>
   node_at (update_at ps (insert_kid j new) n) (ps @ [j]) = Some new"
proof (induction n ps rule: node_at.induct)
  case (1 n)
  then show ?case by (simp add: nth_append)
next
  case (2 s i p)
  then show ?case by simp
next
  case (3 t' a' ks' i p)
  then show ?case by (simp split: if_splits)
qed

lemma node_at_before_inserted:
  "node_at n ps = Some (Elem t a ks) \<Longrightarrow> i < j \<Longrightarrow> j \<le> length ks \<Longrightarrow>
   node_at (update_at ps (insert_kid j new) n) (ps @ [i]) = node_at n (ps @ [i])"
proof (induction n ps rule: node_at.induct)
  case (1 n)
  then show ?case by (simp add: nth_append)
next
  case (2 s i p)
  then show ?case by simp
next
  case (3 t' a' ks' i p)
  then show ?case by (simp split: if_splits)
qed

lemma remove_inserted:
  "node_at n ps = Some (Elem t a ks) \<Longrightarrow> j \<le> length ks \<Longrightarrow>
   update_at ps (remove_kid j) (update_at ps (insert_kid j new) n) = n"
proof (induction n ps rule: node_at.induct)
  case (1 n)
  then show ?case by simp
next
  case (2 s i p)
  then show ?case by simp
next
  case (3 t' a' ks' i p)
  then show ?case by (simp split: if_splits add: list_update_same_conv)
qed


lemma skeleton_with_ids: "skeleton (with_ids c) = skeleton c"
  by (simp add: with_ids_def skeleton_createTOCList)

lemma toc_block_class: "has_class ''table-of-contents'' (toc_block c)"
  by (simp add: toc_block_def createTOCElement_def html_space_def code_def)

lemma generateTOC_content_unfold:
  assumes "3 \<le> length (querySelectorAll (has_tag [''h2'', ''h3'']) c)"
  shows "generateTOC_content c =
     (case insertion_target c of
        None \<Rightarrow> with_ids c
      | Some x \<Rightarrow>
          (case nextSibling c x of
             None \<Rightarrow> with_ids c
           | Some nx \<Rightarrow> insertBefore (toc_block c) nx (with_ids c)))"
proof -
  have q: "querySelector (has_tag ts) (with_ids c) = querySelector (has_tag ts) c" for ts
    by (rule querySelector_same_skeleton) (rule skeleton_with_ids)
  have n: "nextSibling (with_ids c) x = nextSibling c x" for x
    by (rule nextSibling_same_skeleton) (rule skeleton_with_ids)
  from assms have "\<not> length (querySelectorAll (has_tag [''h2'', ''h3'']) c) < 3" by simp
  then show ?thesis
    unfolding generateTOC_content_def Let_def
    by (simp add: q [unfolded with_ids_def] n [unfolded with_ids_def] with_ids_def toc_block_def
        insertion_target_def split: option.splits)
qed

text \<open>
  C6, as amended. When the content has at least three headings of level 2 and 3, the
  node the outline goes after is the first paragraph, and the first heading of level 1
  or 2 when there is no paragraph. When there is such a node and it has a next sibling,
  the outline block is inserted right after it, and taking the block out again gives
  the content with its heading identifiers; when there is no such node, and also when
  it is the last child of its parent, nothing is inserted. Nothing else occurs.
\<close>

theorem generateTOC_insertion:
  assumes "3 \<le> length (querySelectorAll (has_tag [''h2'', ''h3'']) c)"
  shows "case insertion_target c of
        None \<Rightarrow> generateTOC_content c = with_ids c
      | Some x \<Rightarrow>
          (case nextSibling c x of
             None \<Rightarrow> generateTOC_content c = with_ids c
           | Some nx \<Rightarrow>
               nx = butlast x @ [Suc (last x)]
               \<and> has_class ''table-of-contents'' (toc_block c)
               \<and> node_at (generateTOC_content c) nx = Some (toc_block c)
               \<and> node_at (generateTOC_content c) x = node_at (with_ids c) x
               \<and> removeChild nx (generateTOC_content c) = with_ids c)"
proof (cases "insertion_target c")
  case None
  with assms show ?thesis by (simp add: generateTOC_content_unfold)
next
  case (Some x)
  note tgt = this
  show ?thesis
  proof (cases "nextSibling c x")
    case None
    with tgt assms show ?thesis by (simp add: generateTOC_content_unfold)
  next
    case (Some nx)
    note sib = this
    let ?w = "with_ids c"
    have "nextSibling ?w x = Some nx"
      using sib nextSibling_same_skeleton [OF skeleton_with_ids, of c x] by simp
    from nextSibling_Some [OF this] obtain t a ks where
      nx: "nx = butlast x @ [Suc (last x)]"
      and par: "node_at ?w (butlast x) = Some (Elem t a ks)"
      and len: "Suc (last x) < length ks" by blast
    from sib have xne: "x \<noteq> []" by (auto simp: nextSibling_def)
    have g: "generateTOC_content c = update_at (butlast x) (insert_kid (Suc (last x)) (toc_block c)) ?w"
      using assms tgt sib nx by (simp add: generateTOC_content_unfold insertBefore_def)
    from len have le: "Suc (last x) \<le> length ks" by arith
    have a1: "node_at (generateTOC_content c) nx = Some (toc_block c)"
      unfolding g nx by (rule node_at_inserted [OF par le])
    have lt: "last x < Suc (last x)" by simp
    have "node_at (generateTOC_content c) (butlast x @ [last x]) = node_at ?w (butlast x @ [last x])"
      unfolding g by (rule node_at_before_inserted [OF par lt le])
    with xne have a2: "node_at (generateTOC_content c) x = node_at ?w x" by simp
    have a3: "removeChild nx (generateTOC_content c) = ?w"
      unfolding g nx removeChild_def using remove_inserted [OF par le] by simp
    from tgt sib nx a1 a2 a3 toc_block_class [of c] show ?thesis by simp
  qed
qed

theorem generateTOC_insertion_witness:
  "3 \<le> length (querySelectorAll (has_tag [''h2'', ''h3'']) demo_article)
   \<and> insertion_target demo_article = Some [1]
   \<and> nextSibling demo_article [1] = Some [2]
   \<and> node_at (generateTOC_content demo_article) [2] = Some (toc_block demo_article)
   \<and> node_at (generateTOC_content demo_article) [1] = Some (Elem ''p'' [] [Text ''Some text.''])
   \<and> 3 \<le> length (querySelectorAll (has_tag [''h2'', ''h3'']) headings_article)
   \<and> insertion_target headings_article = Some [0]
   \<and> node_at (generateTOC_content headings_article) [1] = Some (toc_block headings_article)
   \<and> 3 \<le> length (querySelectorAll (has_tag [''h2'', ''h3'']) deep_article)
   \<and> insertion_target deep_article = None
   \<and> generateTOC_content deep_article = with_ids deep_article
   \<and> 3 \<le> length (querySelectorAll (has_tag [''h2'', ''h3'']) quote_article)
   \<and> insertion_target quote_article = Some [3, 0]
   \<and> nextSibling quote_article [3, 0] = None
   \<and> generateTOC_content quote_article = with_ids quote_article"
proof -
  have a: "3 \<le> length (querySelectorAll (has_tag [''h2'', ''h3'']) demo_article)"
    by code_simp
  have a1: "insertion_target demo_article = Some [1]" by code_simp
  have a2: "nextSibling demo_article [1] = Some [2]" by code_simp
  have a3: "node_at (with_ids demo_article) [1] = Some (Elem ''p'' [] [Text ''Some text.''])"
    by code_simp
  have b: "3 \<le> length (querySelectorAll (has_tag [''h2'', ''h3'']) headings_article)"
    by code_simp
  have b1: "insertion_target headings_article = Some [0]" by code_simp
  have b2: "nextSibling headings_article [0] = Some [1]" by code_simp
  have c: "3 \<le> length (querySelectorAll (has_tag [''h2'', ''h3'']) deep_article)"
    by code_simp
  have c1: "insertion_target deep_article = None" by code_simp
  have d: "3 \<le> length (querySelectorAll (has_tag [''h2'', ''h3'']) quote_article)"
    by code_simp
  have d1: "insertion_target quote_article = Some [3, 0]" by code_simp
  have d2: "nextSibling quote_article [3, 0] = None" by code_simp
  from a a1 a2 a3 b b1 b2 c c1 d d1 d2
    generateTOC_insertion [OF a] generateTOC_insertion [OF b] generateTOC_insertion [OF c]
    generateTOC_insertion [OF d]
  show ?thesis by simp
qed

text \<open>
  The claim as it stands fails on an article with three headings whose first paragraph
  is the last child: there is a first paragraph, and no outline is inserted.
\<close>

theorem generateTOC_last_paragraph:
  "3 \<le> length (querySelectorAll (has_tag [''h2'', ''h3'']) short_article)
   \<and> querySelector (has_tag [''p'']) short_article = Some [3]
   \<and> generateTOC_content short_article = short_article
   \<and> querySelectorAll (has_class ''table-of-contents'') (generateTOC_content short_article) = []"
  by code_simp

section \<open>Creating the elements twice\<close>

text \<open>
  Every call of \<open>createProgressBar\<close> on a page with a body adds one element with the
  identifier \<open>reading-progress\<close>, whatever the page holds already.
\<close>

lemma length_paths_in_index: "length (paths_in P i ns) = length (paths_in P j ns)"
proof (induction P i ns arbitrary: j rule: paths_in.induct)
  case (1 P i)
  then show ?case by simp
next
  case (2 P i s ns)
  then show ?case by simp
next
  case (3 P i t a ks ns)
  from 3(2) [of "Suc j"] show ?case by simp
qed

lemma length_paths_in_append:
  "length (paths_in P i (xs @ ys)) = length (paths_in P i xs) + length (paths_in P 0 ys)"
proof (induction P i xs rule: paths_in.induct)
  case (1 P i)
  then show ?case by (simp add: length_paths_in_index [of P i ys 0])
next
  case (2 P i s ns)
  then show ?case by simp
next
  case (3 P i t a ks ns)
  then show ?case by simp
qed

lemma length_paths_in_Cons:
  "length (paths_in P i (x # xs)) = length (paths_in P 0 [x]) + length (paths_in P 0 xs)"
  using length_paths_in_append [of P i "[x]" xs] length_paths_in_index [of P i "[x]" 0] by simp

lemma length_paths_in_update:
  assumes "i < length ns"
  shows "length (paths_in P 0 (ns[i := n])) + length (paths_in P 0 [ns ! i])
       = length (paths_in P 0 ns) + length (paths_in P 0 [n])"
proof -
  let ?l = "take i ns" and ?r = "drop (Suc i) ns"
  have a: "ns[i := n] = ?l @ n # ?r"
    using assms by (simp add: upd_conv_take_nth_drop)
  have e: "length (paths_in P 0 ns) = length (paths_in P 0 (?l @ ns ! i # ?r))"
    using assms by (simp add: id_take_nth_drop [symmetric])
  have h: "length (paths_in P 0 (?l @ m # ?r))
      = length (paths_in P 0 ?l) + (length (paths_in P 0 [m]) + length (paths_in P 0 ?r))" for m
    by (simp only: length_paths_in_append length_paths_in_Cons [of P 0 m ?r])
  have "length (paths_in P 0 (?l @ n # ?r)) + length (paths_in P 0 [ns ! i])
      = length (paths_in P 0 (?l @ ns ! i # ?r)) + length (paths_in P 0 [n])"
    unfolding h by arith
  then show ?thesis unfolding a e .
qed

lemma first_index_bound:
  "first_index P i xs = Some j \<Longrightarrow> \<exists>k. j = i + k \<and> k < length xs \<and> P (xs ! k)"
proof (induction xs arbitrary: i)
  case Nil
  then show ?case by simp
next
  case (Cons x xs)
  show ?case
  proof (cases "P x")
    case True
    with Cons.prems have "j = i + 0 \<and> 0 < length (x # xs) \<and> P ((x # xs) ! 0)" by simp
    then show ?thesis by blast
  next
    case False
    with Cons.prems have "first_index P (Suc i) xs = Some j" by simp
    from Cons.IH [OF this] obtain k where "j = Suc i + k" "k < length xs" "P (xs ! k)" by blast
    then have "j = i + Suc k \<and> Suc k < length (x # xs) \<and> P ((x # xs) ! Suc k)" by simp
    then show ?thesis by blast
  qed
qed

lemma first_index_cong:
  "length xs = length ys \<Longrightarrow> \<forall>k < length xs. P (xs ! k) = P (ys ! k) \<Longrightarrow>
   first_index P i xs = first_index P i ys"
proof (induction xs arbitrary: ys i)
  case Nil
  then show ?case by simp
next
  case (Cons x xs)
  then obtain y ys' where y: "ys = y # ys'" by (cases ys) auto
  with Cons.prems have "P x = P y" by auto
  moreover from y Cons.prems have "\<forall>k < length xs. P (xs ! k) = P (ys' ! k)" by auto
  moreover from y Cons.prems have "length xs = length ys'" by simp
  ultimately show ?case using Cons.IH [of ys' "Suc i"] y by simp
qed

lemma createProgressBar_adds:
  assumes "body_path p = Some b"
  shows "\<exists>q. createProgressBar p = Some q \<and> body_path q = Some b
    \<and> count_matches (has_id ''reading-progress'') q
        = Suc (count_matches (has_id ''reading-progress'') p)"
proof -
  let ?P = "has_id ''reading-progress''"
  let ?ks = "html_kids p"
  from assms obtain i where i: "first_index (has_tag [''body'']) 0 ?ks = Some i" and b: "b = [i]"
    by (auto simp: body_path_def)
  from first_index_bound [OF i] have il: "i < length ?ks" and tg: "has_tag [''body''] (?ks ! i)"
    by auto
  from tg obtain t a ks where n: "?ks ! i = Elem t a ks" by (cases "?ks ! i") auto
  let ?n' = "Elem t a (ks @ [progressBar])"
  let ?q = "p\<lparr>html_attrs := html_attrs p, html_kids := ?ks[i := ?n']\<rparr>"
  have q: "doc_update b (append_kid progressBar) p = ?q"
    using il n b by (simp add: doc_update_def root_def)
  have c: "createProgressBar p = Some ?q"
    using assms q by (simp add: createProgressBar_def)
  have "first_index (has_tag [''body'']) 0 (?ks[i := ?n']) = first_index (has_tag [''body'']) 0 ?ks"
  proof (rule first_index_cong)
    show "length (?ks[i := ?n']) = length ?ks" by simp
    have same: "has_tag [''body''] ?n' = has_tag [''body''] (?ks ! i)" by (simp add: n)
    show "\<forall>k<length (?ks[i := ?n']). has_tag [''body''] (?ks[i := ?n'] ! k) = has_tag [''body''] (?ks ! k)"
    proof (intro allI impI)
      fix k
      assume "k < length (?ks[i := ?n'])"
      then show "has_tag [''body''] (?ks[i := ?n'] ! k) = has_tag [''body''] (?ks ! k)"
        using same by (cases "k = i") simp_all
    qed
  qed
  with i b have bq: "body_path ?q = Some b" by (simp add: body_path_def)
  have one: "length (paths_in ?P 0 [?n']) = Suc (length (paths_in ?P 0 [Elem t a ks]))"
    by (simp add: length_paths_in_append progressBar_def)
  from length_paths_in_update [OF il, of ?P ?n'] n one
  have "length (paths_in ?P 0 (?ks[i := ?n'])) = Suc (length (paths_in ?P 0 ?ks))" by simp
  then have "count_matches ?P ?q = Suc (count_matches ?P p)"
    by (simp add: count_matches_def doc_querySelectorAll_def root_def)
  with c bq show ?thesis by blast
qed

lemma createProgressBar_twice:
  assumes "body_path p = Some b"
  shows "map_option (count_matches (has_id ''reading-progress''))
           (Option.bind (createProgressBar p) createProgressBar)
         = Some (count_matches (has_id ''reading-progress'') p + 2)"
proof -
  from createProgressBar_adds [OF assms] obtain q where
    q: "createProgressBar p = Some q" "body_path q = Some b"
    "count_matches (has_id ''reading-progress'') q = Suc (count_matches (has_id ''reading-progress'') p)"
    by blast
  from createProgressBar_adds [OF q(2)] obtain r where
    r: "createProgressBar q = Some r"
    "count_matches (has_id ''reading-progress'') r = Suc (count_matches (has_id ''reading-progress'') q)"
    by blast
  from q r show ?thesis by simp
qed

text \<open>
  C3. The claim: each of the four creation routines, run twice on the same document,
  leaves exactly one element of its kind, since it looks for an earlier one first.
  \<open>createThemeToggle\<close> and \<open>addCopyLinks\<close> do look; \<open>createProgressBar\<close> and
  \<open>generateTOC\<close> do not. On the page below, two runs leave two progress bars and two
  outline blocks, one toggle button, and one copy button on each of the two headings
  that have an identifier.
\<close>

theorem creation_twice:
  "map_option (count_matches (has_id ''reading-progress''))
     (Option.bind (createProgressBar demo_page) createProgressBar) = Some 2
   \<and> count_matches (has_class ''table-of-contents'') (generateTOC (generateTOC demo_page)) = 2
   \<and> count_matches (has_id ''theme-toggle'') (createThemeToggle (createThemeToggle demo_page)) = 1
   \<and> count_matches (has_class ''copy-link'') (addCopyLinks demo_page) = 2
   \<and> count_matches (has_class ''copy-link'') (addCopyLinks (addCopyLinks demo_page)) = 2"
  by code_simp

end
